theory Spec2Isabelle
  imports Main "HOL-Library.Sublist"
begin

section \<open>Strings as the controller uses them\<close>

text \<open>
  A JavaScript string is modelled as a \<^typ>\<open>string\<close>, one \<^typ>\<open>char\<close> per code unit.
  \<open>s.isBlank\<close> (underscore.string) tests the string against \<^verbatim>\<open>/^\s*$/\<close>;
  the white space of \<^verbatim>\<open>\s\<close> that fits a \<^typ>\<open>char\<close> is TAB, LF, VT, FF, CR, SPACE and
  the no-break space.
\<close>

definition is_space :: "char \<Rightarrow> bool" where
  "is_space c = (c \<in> set [CHR 0x09, CHR 0x0A, CHR 0x0B, CHR 0x0C, CHR 0x0D, CHR 0x20, CHR 0xA0])"

definition isBlank :: "string \<Rightarrow> bool" where
  "isBlank str = list_all is_space str"

text \<open>
  \<open>String.prototype.indexOf\<close>: the least position at which the search string occurs,
  \<open>-1\<close> when it occurs nowhere; the empty search string occurs at position \<open>0\<close>.
\<close>

fun indexOf_from :: "string \<Rightarrow> string \<Rightarrow> int \<Rightarrow> int" where
  "indexOf_from [] sub k = (if sub = [] then k else - 1)"
| "indexOf_from (c # cs) sub k =
     (if prefix sub (c # cs) then k else indexOf_from cs sub (k + 1))"

definition indexOf :: "string \<Rightarrow> string \<Rightarrow> int" where
  "indexOf str sub = indexOf_from str sub 0"

text \<open>
  A request field that the controller tests with \<open>_.isString\<close> is a \<^typ>\<open>string option\<close>:
  \<open>None\<close> stands for every value that is not a string (absent, null, a number, an object).
\<close>

definition non_blank_string :: "string option \<Rightarrow> bool" where
  "non_blank_string v = (case v of None \<Rightarrow> False | Some str \<Rightarrow> \<not> isBlank str)"

text \<open>JavaScript truthiness of a value that is a string, null or undefined.\<close>

definition truthy :: "string option \<Rightarrow> bool" where
  "truthy v = (case v of None \<Rightarrow> False | Some str \<Rightarrow> str \<noteq> [])"


section \<open>Data model\<close>

text \<open>
  A document of the \<open>Users\<close> collection. Times are milliseconds since the epoch.
  \<open>reset_at\<close> is the property that \<open>resetPassword\<close> assigns; no query of the controller
  reads it.
\<close>

record user =
  uid :: nat
  email :: string
  user_group :: string
  password :: string
  reset_token :: "string option"
  reset_token_expires_at :: "int option"
  reset_at :: "int option"

record job =
  job_name :: string
  job_template :: string
  job_to :: string
  job_link :: "string option"

text \<open>
  The keys handed to \<open>ctx.translate\<close>. \<open>PASSWORD_RESET_LIMIT\<close> is formatted with
  \<open>moment(user.reset_token_expires_at).fromNow()\<close>; the model carries the signed distance
  in milliseconds from now to the expiry that \<open>fromNow\<close> renders (positive: in the future).
\<close>

datatype msgkey =
    INVALID_EMAIL
  | INVALID_PASSWORD
  | INVALID_RESET_TOKEN
  | INVALID_RESET_PASSWORD
  | INVALID_PASSWORD_STRENGTH
  | PASSWORD_RESET_LIMIT int
  | PASSWORD_RESET_SENT
  | RESET_PASSWORD
  | REGISTERED

datatype register_error = DuplicateEmail | CredentialError

datatype error =
    BadRequest msgkey
  | BadRequest_register register_error

datatype outcome = Returned | Thrown error

datatype body =
    Body_message msgkey
  | Body_message_redirectTo msgkey string
  | Body_redirectTo string

datatype flash = Flash_success msgkey | Flash_custom msgkey

datatype log_entry = Warn string | Debug string | Error_logged string

text \<open>
  Everything a request handler reads or writes: the request, the session, the response
  under construction, the logger, and the two collections. \<open>jobs_up\<close> says whether
  \<open>Jobs.create\<close> succeeds; \<open>user.save\<close> and \<open>ctx.login\<close> are taken to succeed.
\<close>

record world =
  ctx_locale :: string
  accepts_json :: bool
  pathWithoutLocale :: string
  query_return_to :: "string option"
  query_redirect_to :: "string option"
  body_email :: "string option"
  body_password :: "string option"
  params_token :: "string option"
  session_returnTo :: "string option"
  session_user :: "user option"
  resp_body :: "body option"
  resp_flash :: "flash list"
  resp_redirect :: "string option"
  rendered :: "string option"
  state_verb :: string
  logged :: "log_entry list"
  users :: "user list"
  jobs :: "job list"
  jobs_up :: bool

text \<open>
  What the controller takes from outside this file: \<open>config.urls.web\<close>,
  \<open>config.passportCallbackOptions.successReturnToOrRedirect\<close>, \<open>validator.isEmail\<close>,
  and the credential store behind \<open>user.setPassword\<close>, which yields the new hash or fails.
\<close>

record deps =
  web :: string
  successReturnToOrRedirect :: string
  isEmail :: "string \<Rightarrow> bool"
  hash_password :: "string \<Rightarrow> string option"


section \<open>registerOrLogin\<close>

text \<open>Lines 38 to 43: \<open>return_to\<close> first, \<open>redirect_to\<close> as the fallback.\<close>

definition pick_returnTo :: "world \<Rightarrow> world" where
  "pick_returnTo w =
     (if non_blank_string (query_return_to w) then w\<lparr>session_returnTo := query_return_to w\<rparr>
      else if non_blank_string (query_redirect_to w) then w\<lparr>session_returnTo := query_redirect_to w\<rparr>
      else w)"

text \<open>Lines 46 to 53: the guard against an open redirect.\<close>

definition hijack_warning :: "string \<Rightarrow> log_entry" where
  "hijack_warning r = Warn (''Prevented abuse with returnTo hijacking to '' @ r)"

definition guard_returnTo :: "deps \<Rightarrow> world \<Rightarrow> world" where
  "guard_returnTo d w =
     (case session_returnTo w of
        None \<Rightarrow> w
      | Some r \<Rightarrow>
          if r \<noteq> [] \<and> indexOf r ''://'' \<noteq> - 1 \<and> indexOf r (web d) \<noteq> 0
          then w\<lparr>logged := logged w @ [hijack_warning r], session_returnTo := None\<rparr>
          else w)"

definition registerOrLogin :: "deps \<Rightarrow> world \<Rightarrow> world" where
  "registerOrLogin d w =
     (let w1 = pick_returnTo w;
          w2 = guard_returnTo d w1
      in w2\<lparr>state_verb := (if pathWithoutLocale w2 = ''/register'' then ''sign up'' else ''sign in''),
             rendered := Some ''register-or-login''\<rparr>)"


section \<open>The collections\<close>

text \<open>
  \<open>Users.findOne(query)\<close> yields the first document that matches, \<open>Users.count(query)\<close>
  the number of matching documents, and \<open>user.save()\<close> writes a document back under its id.
\<close>

definition findOne :: "(user \<Rightarrow> bool) \<Rightarrow> user list \<Rightarrow> user option" where
  "findOne query us = List.find query us"

definition count_users :: "(user \<Rightarrow> bool) \<Rightarrow> user list \<Rightarrow> nat" where
  "count_users query us = length (filter query us)"

definition save :: "user \<Rightarrow> user list \<Rightarrow> user list" where
  "save u us = map (\<lambda>v. if uid v = uid u then u else v) us"

text \<open>
  \<open>Jobs.create\<close> inside its \<open>try\<close>: the job is stored and a debug line is logged, or the
  failure is logged and swallowed.
\<close>

definition Jobs_create :: "job \<Rightarrow> string \<Rightarrow> world \<Rightarrow> world" where
  "Jobs_create j note w =
     (if jobs_up w
      then w\<lparr>jobs := jobs w @ [j], logged := logged w @ [Debug note]\<rparr>
      else w\<lparr>logged := logged w @ [Error_logged ''Jobs.create'']\<rparr>)"

text \<open>
  Modelled from the spec: \<open>user.setPassword\<close> belongs to the user model, which is not
  among the sources. The credential store hashes the password and the hash replaces the
  stored credential, or the store refuses the password and the account is untouched.
\<close>

definition setPassword :: "deps \<Rightarrow> user \<Rightarrow> string \<Rightarrow> user option" where
  "setPassword d u pw =
     (case hash_password d pw of None \<Rightarrow> None | Some h \<Rightarrow> Some (u\<lparr>password := h\<rparr>))"

definition thirty_minutes :: int where
  "thirty_minutes = 30 * 60 * 1000"


section \<open>register\<close>

definition fresh_uid :: "user list \<Rightarrow> nat" where
  "fresh_uid us = Suc (fold max (map uid us) 0)"

text \<open>
  Modelled from the spec: \<open>Users.registerAsync\<close> belongs to the user model, which is not
  among the sources. It fails with DuplicateEmail when the email already exists and with
  CredentialError when the credential store refuses the password; otherwise it stores a new
  account with the fields it was given and returns it.
\<close>

definition registerAsync ::
  "deps \<Rightarrow> string \<Rightarrow> string \<Rightarrow> string \<Rightarrow> user list \<Rightarrow> register_error + user \<times> user list" where
  "registerAsync d e g pw us =
     (if list_ex (\<lambda>u. email u = e) us then Inl DuplicateEmail
      else
        (case setPassword d
                \<lparr>uid = fresh_uid us, email = e, user_group = g, password = [],
                 reset_token = None, reset_token_expires_at = None, reset_at = None\<rparr> pw of
           None \<Rightarrow> Inl CredentialError
         | Some u \<Rightarrow> Inr (u, us @ [u])))"

definition default_redirect :: "deps \<Rightarrow> world \<Rightarrow> string" where
  "default_redirect d w = ''/'' @ ctx_locale w @ successReturnToOrRedirect d"

definition welcome_job :: "user \<Rightarrow> job" where
  "welcome_job u =
     \<lparr>job_name = ''email'', job_template = ''welcome'', job_to = email u, job_link = None\<rparr>"

definition register :: "deps \<Rightarrow> world \<Rightarrow> outcome \<times> world" where
  "register d w =
     (case body_email w of
        None \<Rightarrow> (Thrown (BadRequest INVALID_EMAIL), w)
      | Some e \<Rightarrow>
          if \<not> isEmail d e then (Thrown (BadRequest INVALID_EMAIL), w)
          else
            (case body_password w of
               None \<Rightarrow> (Thrown (BadRequest INVALID_PASSWORD), w)
             | Some pw \<Rightarrow>
                 if isBlank pw then (Thrown (BadRequest INVALID_PASSWORD), w)
                 else
                   (let count = count_users (\<lambda>u. user_group u = ''admin'') (users w) in
                    case registerAsync d e (if count = 0 then ''admin'' else ''user'') pw (users w) of
                      Inl err \<Rightarrow> (Thrown (BadRequest_register err), w)
                    | Inr (u, us) \<Rightarrow>
                        (let w1 = w\<lparr>users := us, session_user := Some u\<rparr>;
                             (redirectTo, w2) =
                               (case session_returnTo w1 of
                                  None \<Rightarrow> (default_redirect d w1, w1)
                                | Some r \<Rightarrow>
                                    if r \<noteq> [] then (r, w1\<lparr>session_returnTo := None\<rparr>)
                                    else (default_redirect d w1, w1));
                             w3 = w2\<lparr>resp_flash := resp_flash w2 @ [Flash_custom REGISTERED]\<rparr>;
                             w4 = (if accepts_json w3
                                   then w3\<lparr>resp_body := Some (Body_redirectTo redirectTo)\<rparr>
                                   else w3\<lparr>resp_redirect := Some redirectTo\<rparr>)
                         in (Returned, Jobs_create (welcome_job u) ''queued welcome email'' w4)))))"


section \<open>forgotPassword\<close>

text \<open>
  Lines 234 to 238, the test for a recent request: both fields truthy and the expiry before
  now plus thirty minutes. The result is the distance that the error message is formatted
  with.
\<close>

definition reset_limit :: "int \<Rightarrow> user \<Rightarrow> int option" where
  "reset_limit now u =
     (case reset_token_expires_at u of
        None \<Rightarrow> None
      | Some x \<Rightarrow>
          if truthy (reset_token u) \<and> x < now + thirty_minutes then Some (x - now) else None)"

definition reply_reset_sent :: "world \<Rightarrow> world" where
  "reply_reset_sent w =
     (if accepts_json w
      then w\<lparr>resp_body := Some (Body_message PASSWORD_RESET_SENT)\<rparr>
      else w\<lparr>resp_flash := resp_flash w @ [Flash_success PASSWORD_RESET_SENT],
             resp_redirect := Some ''back''\<rparr>)"

definition reset_job :: "deps \<Rightarrow> user \<Rightarrow> job" where
  "reset_job d u =
     \<lparr>job_name = ''email'', job_template = ''reset-password'', job_to = email u,
      job_link = Some (web d @ ''/reset-password/'' @ (case reset_token u of None \<Rightarrow> ''null'' | Some t \<Rightarrow> t))\<rparr>"

text \<open>
  \<open>now\<close> is the clock of the request (the readings of \<open>moment()\<close> within one request
  are one instant) and \<open>tok\<close> the string that \<open>randomstring.token()\<close> draws.
\<close>

definition forgotPassword :: "deps \<Rightarrow> int \<Rightarrow> string \<Rightarrow> world \<Rightarrow> outcome \<times> world" where
  "forgotPassword d now tok w =
     (case body_email w of
        None \<Rightarrow> (Thrown (BadRequest INVALID_EMAIL), w)
      | Some e \<Rightarrow>
          if \<not> isEmail d e then (Thrown (BadRequest INVALID_EMAIL), w)
          else
            (case findOne (\<lambda>u. email u = e) (users w) of
               None \<Rightarrow> (Returned, reply_reset_sent w)
             | Some u \<Rightarrow>
                 (case reset_limit now u of
                    Some wait \<Rightarrow> (Thrown (BadRequest (PASSWORD_RESET_LIMIT wait)), w)
                  | None \<Rightarrow>
                      (let u1 = u\<lparr>reset_token_expires_at := Some (now + thirty_minutes),
                                  reset_token := Some tok\<rparr>;
                           w1 = w\<lparr>users := save u1 (users w)\<rparr>;
                           w2 = reply_reset_sent w1
                       in (Returned, Jobs_create (reset_job d u1) ''Queued reset password email'' w2)))))"


section \<open>resetPassword\<close>

text \<open>
  The query of lines 294 to 301: the email, the token, and an expiry that is \<open>$gte\<close> the
  current date. A document without an expiry does not match.
\<close>

definition reset_query :: "string \<Rightarrow> string \<Rightarrow> int \<Rightarrow> user \<Rightarrow> bool" where
  "reset_query e t now u =
     (email u = e \<and> reset_token u = Some t \<and>
      (case reset_token_expires_at u of None \<Rightarrow> False | Some x \<Rightarrow> now \<le> x))"

definition reply_reset_done :: "world \<Rightarrow> world" where
  "reply_reset_done w =
     (if accepts_json w
      then w\<lparr>resp_body := Some (Body_message_redirectTo RESET_PASSWORD (''/'' @ ctx_locale w))\<rparr>
      else w\<lparr>resp_flash := resp_flash w @ [Flash_success RESET_PASSWORD],
             resp_redirect := Some (''/'' @ ctx_locale w)\<rparr>)"

text \<open>
  Lines 307 to 326. The \<open>finally\<close> block runs whether or not \<open>setPassword\<close> threw; an
  error thrown in the \<open>catch\<close> block leaves the handler after it.
\<close>

definition consume :: "deps \<Rightarrow> user \<Rightarrow> string \<Rightarrow> world \<Rightarrow> outcome \<times> world" where
  "consume d u pw w =
     (let u1 = u\<lparr>reset_token := None, reset_at := None\<rparr>;
          (thrown, u2) =
            (case setPassword d u1 pw of
               None \<Rightarrow> (Thrown (BadRequest INVALID_PASSWORD_STRENGTH), u1)
             | Some u' \<Rightarrow> (Returned, u'));
          w1 = w\<lparr>users := save u2 (users w)\<rparr>;
          w2 = w1\<lparr>session_user := Some u2\<rparr>
      in (thrown, reply_reset_done w2))"

definition resetPassword :: "deps \<Rightarrow> int \<Rightarrow> world \<Rightarrow> outcome \<times> world" where
  "resetPassword d now w =
     (case body_email w of
        None \<Rightarrow> (Thrown (BadRequest INVALID_EMAIL), w)
      | Some e \<Rightarrow>
          if \<not> isEmail d e then (Thrown (BadRequest INVALID_EMAIL), w)
          else
            (case body_password w of
               None \<Rightarrow> (Thrown (BadRequest INVALID_PASSWORD), w)
             | Some pw \<Rightarrow>
                 if isBlank pw then (Thrown (BadRequest INVALID_PASSWORD), w)
                 else
                   (case params_token w of
                      None \<Rightarrow> (Thrown (BadRequest INVALID_RESET_TOKEN), w)
                    | Some t \<Rightarrow>
                        if isBlank t then (Thrown (BadRequest INVALID_RESET_TOKEN), w)
                        else
                          (case findOne (reset_query e t now) (users w) of
                             None \<Rightarrow> (Thrown (BadRequest INVALID_RESET_PASSWORD), w)
                           | Some u \<Rightarrow> consume d u pw w))))"


text \<open>The document that \<open>consume\<close> writes back and logs in.\<close>

definition consumed :: "deps \<Rightarrow> user \<Rightarrow> string \<Rightarrow> user" where
  "consumed d u pw =
     (case hash_password d pw of
        None \<Rightarrow> u\<lparr>reset_token := None, reset_at := None\<rparr>
      | Some h \<Rightarrow> u\<lparr>reset_token := None, reset_at := None, password := h\<rparr>)"


section \<open>Concrete requests\<close>

text \<open>
  A deployment at \<open>https://app.example\<close> whose credential store refuses passwords shorter
  than four characters, an empty request, and an account whose reset token was issued at
  time 0 and expires thirty minutes later.
\<close>

definition example_deps :: deps where
  "example_deps =
     \<lparr>web = ''https://app.example'', successReturnToOrRedirect = ''/dashboard'',
      isEmail = (\<lambda>str. CHR ''@'' \<in> set str),
      hash_password = (\<lambda>pw. if length pw < 4 then None else Some (''hash:'' @ pw))\<rparr>"

definition blank_world :: world where
  "blank_world =
     \<lparr>ctx_locale = ''en'', accepts_json = True, pathWithoutLocale = ''/login'',
      query_return_to = None, query_redirect_to = None,
      body_email = None, body_password = None, params_token = None,
      session_returnTo = None, session_user = None,
      resp_body = None, resp_flash = [], resp_redirect = None, rendered = None,
      state_verb = [], logged = [], users = [], jobs = [], jobs_up = True\<rparr>"

definition alice :: user where
  "alice =
     \<lparr>uid = 1, email = ''a@x.com'', user_group = ''admin'', password = ''hash:oldpass'',
      reset_token = Some ''tok1'', reset_token_expires_at = Some 1800000, reset_at = None\<rparr>"

definition reset_request :: "string \<Rightarrow> world" where
  "reset_request pw =
     blank_world\<lparr>users := [alice], body_email := Some ''a@x.com'',
                 body_password := Some pw, params_token := Some ''tok1''\<rparr>"

definition forgot_request :: "string \<Rightarrow> world" where
  "forgot_request e = blank_world\<lparr>users := [alice], body_email := Some e\<rparr>"


section \<open>Facts about indexOf\<close>

lemma indexOf_from_lower: "indexOf_from str sub k = - 1 \<or> k \<le> indexOf_from str sub k"
proof (induction str arbitrary: k)
  case Nil
  show ?case by simp
next
  case (Cons c cs)
  from Cons.IH [of "k + 1"] show ?case by auto
qed

lemma indexOf_from_found:
  "0 \<le> k \<Longrightarrow> (indexOf_from str sub k \<noteq> - 1) = sublist sub str"
proof (induction str arbitrary: k)
  case Nil
  then show ?case by auto
next
  case (Cons c cs)
  then show ?case by (auto simp: sublist_Cons_right)
qed

lemma indexOf_from_start:
  assumes k: "0 \<le> k"
  shows "(indexOf_from str sub k = k) = prefix sub str"
proof (cases str)
  case Nil
  with k show ?thesis by auto
next
  case (Cons c cs)
  show ?thesis
  proof (cases "prefix sub (c # cs)")
    case True
    with Cons show ?thesis by simp
  next
    case False
    have "indexOf_from cs sub (k + 1) = - 1 \<or> k + 1 \<le> indexOf_from cs sub (k + 1)"
      by (rule indexOf_from_lower)
    with k have "indexOf_from cs sub (k + 1) \<noteq> k" by arith
    with Cons False show ?thesis by simp
  qed
qed

lemma indexOf_contains: "(indexOf str sub \<noteq> - 1) = sublist sub str"
  by (simp add: indexOf_def indexOf_from_found)

lemma indexOf_begins: "(indexOf str sub = 0) = prefix sub str"
  by (simp add: indexOf_def indexOf_from_start)


section \<open>Facts about the collections and the replies\<close>

lemma findOne_Some: "findOne q us = Some u \<Longrightarrow> u \<in> set us \<and> q u"
  by (auto simp: findOne_def find_Some_iff)

lemma findOne_None: "(findOne q us = None) = (\<forall>u\<in>set us. \<not> q u)"
  by (auto simp: findOne_def find_None_iff)

lemma findOne_save_uid:
  "u \<in> set us \<Longrightarrow> uid u' = uid u \<Longrightarrow> findOne (\<lambda>v. uid v = uid u) (save u' us) = Some u'"
  by (induction us) (auto simp: findOne_def save_def)

lemma set_save: "v \<in> set (save u' us) \<Longrightarrow> v = u' \<or> (v \<in> set us \<and> uid v \<noteq> uid u')"
  by (auto simp: save_def split: if_splits)

lemma email_unique:
  "distinct (map email us) \<Longrightarrow> u \<in> set us \<Longrightarrow> v \<in> set us \<Longrightarrow> email u = email v \<Longrightarrow> u = v"
  by (auto simp: distinct_map dest: inj_onD)

lemma uid_unique:
  "distinct (map uid us) \<Longrightarrow> u \<in> set us \<Longrightarrow> v \<in> set us \<Longrightarrow> uid u = uid v \<Longrightarrow> u = v"
  by (auto simp: distinct_map dest: inj_onD)

lemma save_keeps_field:
  assumes "distinct (map uid us)" "u \<in> set us" "uid u' = uid u" "f u' = f u"
  shows "map f (save u' us) = map f us"
proof -
  have "\<And>v. v \<in> set us \<Longrightarrow> uid v = uid u' \<Longrightarrow> v = u"
    using assms uid_unique by metis
  then show ?thesis using assms by (auto simp: save_def)
qed

lemma users_reply_reset_done [simp]: "users (reply_reset_done w) = users w"
  by (simp add: reply_reset_done_def)

lemma session_reply_reset_done [simp]: "session_user (reply_reset_done w) = session_user w"
  by (simp add: reply_reset_done_def)

lemma users_reply_reset_sent [simp]: "users (reply_reset_sent w) = users w"
  by (simp add: reply_reset_sent_def)

lemma jobs_reply_reset_sent [simp]: "jobs (reply_reset_sent w) = jobs w"
  by (simp add: reply_reset_sent_def)

lemma users_Jobs_create [simp]: "users (Jobs_create j note w) = users w"
  by (simp add: Jobs_create_def)

lemma session_Jobs_create [simp]: "session_user (Jobs_create j note w) = session_user w"
  by (simp add: Jobs_create_def)


section \<open>Facts about resetPassword\<close>

lemma consume_users:
  "users (snd (consume d u pw w)) = save (consumed d u pw) (users w)"
  by (simp add: consume_def consumed_def setPassword_def Let_def split: option.splits)

lemma consume_session:
  "session_user (snd (consume d u pw w)) = Some (consumed d u pw)"
  by (simp add: consume_def consumed_def setPassword_def Let_def split: option.splits)

lemma consume_outcome:
  "fst (consume d u pw w) =
     (case hash_password d pw of
        None \<Rightarrow> Thrown (BadRequest INVALID_PASSWORD_STRENGTH)
      | Some h \<Rightarrow> Returned)"
  by (simp add: consume_def setPassword_def Let_def split: option.splits)

lemma consumed_fields [simp]:
  "uid (consumed d u pw) = uid u"
  "email (consumed d u pw) = email u"
  "user_group (consumed d u pw) = user_group u"
  "reset_token (consumed d u pw) = None"
  "reset_token_expires_at (consumed d u pw) = reset_token_expires_at u"
  by (simp_all add: consumed_def split: option.splits)

lemma resetPassword_found:
  assumes "body_email w = Some e" "isEmail d e" "body_password w = Some pw" "\<not> isBlank pw"
    "params_token w = Some t" "\<not> isBlank t" "findOne (reset_query e t now) (users w) = Some u"
  shows "resetPassword d now w = consume d u pw w"
  using assms by (simp add: resetPassword_def)

lemma resetPassword_cases:
  "(\<exists>err. resetPassword d now w = (Thrown (BadRequest err), w) \<and>
      err \<in> {INVALID_EMAIL, INVALID_PASSWORD, INVALID_RESET_TOKEN, INVALID_RESET_PASSWORD}) \<or>
   (\<exists>e pw t u. body_email w = Some e \<and> isEmail d e \<and> body_password w = Some pw \<and> \<not> isBlank pw \<and>
      params_token w = Some t \<and> \<not> isBlank t \<and> findOne (reset_query e t now) (users w) = Some u \<and>
      resetPassword d now w = consume d u pw w)"
  by (auto simp: resetPassword_def split: option.splits)

lemma lookup_after_save:
  assumes d: "distinct (map email us)" and u: "u \<in> set us" and e: "email u = e"
    and u': "uid u' = uid u" "reset_token u' = None"
  shows "findOne (reset_query e t now') (save u' us) = None"
proof -
  have "\<not> reset_query e t now' v" if "v \<in> set (save u' us)" for v
  proof -
    from that set_save have "v = u' \<or> (v \<in> set us \<and> uid v \<noteq> uid u')" by blast
    then show ?thesis
    proof
      assume "v = u'"
      with u' show ?thesis by (simp add: reset_query_def)
    next
      assume v: "v \<in> set us \<and> uid v \<noteq> uid u'"
      show ?thesis
      proof
        assume "reset_query e t now' v"
        then have "email v = e" by (simp add: reset_query_def)
        with d u e v have "u = v" using email_unique by metis
        with v u' show False by simp
      qed
    qed
  qed
  then show ?thesis by (simp add: findOne_None)
qed

lemmas example_defs =
  example_deps_def blank_world_def alice_def reset_request_def forgot_request_def

lemmas eval_defs =
  resetPassword_def consume_def setPassword_def reply_reset_done_def save_def findOne_def
  reset_query_def isBlank_def is_space_def non_blank_string_def truthy_def
  forgotPassword_def reset_limit_def reply_reset_sent_def Jobs_create_def reset_job_def
  thirty_minutes_def Let_def


section \<open>The open-redirect guard\<close>

lemma guard_rejects:
  assumes "session_returnTo w = Some c" "sublist ''://'' c" "\<not> prefix (web d) c"
  shows "guard_returnTo d w = w\<lparr>logged := logged w @ [hijack_warning c], session_returnTo := None\<rparr>"
proof -
  from assms(2) have "c \<noteq> []" by auto
  with assms show ?thesis
    by (simp add: guard_returnTo_def indexOf_contains indexOf_begins)
qed

lemma guard_keeps:
  assumes "session_returnTo w = Some c" "\<not> sublist ''://'' c \<or> prefix (web d) c"
  shows "guard_returnTo d w = w"
  using assms by (auto simp: guard_returnTo_def indexOf_contains indexOf_begins)

text \<open>
  Claim C2. Let \<open>c\<close> be the pending redirect that the session holds when the guard runs.
  If \<open>c\<close> contains \<open>://\<close> and does not begin with the trusted origin, the session's
  \<open>returnTo\<close> becomes null and one warning that ends with \<open>c\<close> is logged. If \<open>c\<close> has no
  \<open>://\<close>, or begins with the trusted origin, it stays in the session as it is and nothing
  is logged.
\<close>

theorem open_redirect_guard:
  assumes "session_returnTo (pick_returnTo w) = Some c"
  shows "(sublist ''://'' c \<and> \<not> prefix (web d) c \<longrightarrow>
            session_returnTo (registerOrLogin d w) = None \<and>
            logged (registerOrLogin d w) = logged w @ [hijack_warning c]) \<and>
         (\<not> sublist ''://'' c \<longrightarrow>
            session_returnTo (registerOrLogin d w) = Some c \<and>
            logged (registerOrLogin d w) = logged w) \<and>
         (prefix (web d) c \<longrightarrow>
            session_returnTo (registerOrLogin d w) = Some c \<and>
            logged (registerOrLogin d w) = logged w)"
proof -
  have lg: "logged (pick_returnTo w) = logged w"
    by (simp add: pick_returnTo_def)
  show ?thesis
    using assms lg
    by (auto simp: registerOrLogin_def Let_def guard_rejects guard_keeps)
qed

theorem open_redirect_guard_witness:
  "session_returnTo (registerOrLogin example_deps
       (blank_world\<lparr>query_return_to := Some ''https://evil.example/x''\<rparr>)) = None \<and>
   logged (registerOrLogin example_deps
       (blank_world\<lparr>query_return_to := Some ''https://evil.example/x''\<rparr>))
     = [Warn ''Prevented abuse with returnTo hijacking to https://evil.example/x''] \<and>
   session_returnTo (registerOrLogin example_deps
       (blank_world\<lparr>query_return_to := Some ''/dashboard''\<rparr>)) = Some ''/dashboard'' \<and>
   logged (registerOrLogin example_deps
       (blank_world\<lparr>query_return_to := Some ''/dashboard''\<rparr>)) = [] \<and>
   session_returnTo (registerOrLogin example_deps
       (blank_world\<lparr>query_redirect_to := Some ''https://app.example/x''\<rparr>))
     = Some ''https://app.example/x'' \<and>
   logged (registerOrLogin example_deps
       (blank_world\<lparr>query_redirect_to := Some ''https://app.example/x''\<rparr>)) = []"
proof -
  have p1: "session_returnTo (pick_returnTo (blank_world\<lparr>query_return_to := Some ''https://evil.example/x''\<rparr>))
              = Some ''https://evil.example/x''"
    by (simp add: pick_returnTo_def non_blank_string_def isBlank_def is_space_def blank_world_def)
  have p2: "session_returnTo (pick_returnTo (blank_world\<lparr>query_return_to := Some ''/dashboard''\<rparr>))
              = Some ''/dashboard''"
    by (simp add: pick_returnTo_def non_blank_string_def isBlank_def is_space_def blank_world_def)
  have p3: "session_returnTo (pick_returnTo (blank_world\<lparr>query_redirect_to := Some ''https://app.example/x''\<rparr>))
              = Some ''https://app.example/x''"
    by (simp add: pick_returnTo_def non_blank_string_def isBlank_def is_space_def blank_world_def)
  have h1: "sublist ''://'' ''https://evil.example/x'' \<and>
            \<not> prefix (web example_deps) ''https://evil.example/x''"
    by (simp add: example_deps_def sublist_Cons_right)
  have h2: "\<not> sublist ''://'' ''/dashboard''"
    by (simp add: sublist_Cons_right)
  have h3: "prefix (web example_deps) ''https://app.example/x''"
    by (simp add: example_deps_def)
  show ?thesis
    using open_redirect_guard [OF p1, of example_deps] open_redirect_guard [OF p2, of example_deps]
      open_redirect_guard [OF p3, of example_deps] h1 h2 h3
    by (simp add: blank_world_def hijack_warning_def)
qed


section \<open>A reset token is used once\<close>

text \<open>
  Claim C1. Emails being unique in the collection, once \<open>resetPassword\<close> has returned
  for an email and a token, the lookup with the same email and token finds no account at
  any later time, and a further reset request with them is refused with
  INVALID_RESET_PASSWORD and changes nothing.
\<close>

theorem token_single_use:
  assumes uniq: "distinct (map email (users w))"
    and req: "body_email w = Some e" "params_token w = Some t"
    and ok: "resetPassword d now w = (Returned, w')"
    and again: "users w2 = users w'" "body_email w2 = Some e" "params_token w2 = Some t"
      "non_blank_string (body_password w2)"
  shows "findOne (reset_query e t now') (users w') = None \<and>
         resetPassword d now' w2 = (Thrown (BadRequest INVALID_RESET_PASSWORD), w2)"
proof -
  from resetPassword_cases [of d now w] ok req
  obtain pw u where v: "isEmail d e" "\<not> isBlank t"
    and f: "findOne (reset_query e t now) (users w) = Some u"
    and c: "resetPassword d now w = consume d u pw w"
    by auto
  from f have u: "u \<in> set (users w)" "email u = e"
    by (auto dest: findOne_Some simp: reset_query_def)
  from c ok have "snd (consume d u pw w) = w'" by (metis snd_conv)
  then have "users w' = save (consumed d u pw) (users w)"
    using consume_users [of d u pw w] by simp
  with uniq u have none: "findOne (reset_query e t now') (users w') = None"
    by (simp add: lookup_after_save)
  with again v show ?thesis
    by (auto simp: resetPassword_def non_blank_string_def split: option.splits)
qed

theorem token_single_use_witness:
  "resetPassword example_deps 1000 (reset_request ''newpass1'')
     = (Returned, snd (resetPassword example_deps 1000 (reset_request ''newpass1''))) \<and>
   findOne (reset_query ''a@x.com'' ''tok1'' 2000)
     (users (snd (resetPassword example_deps 1000 (reset_request ''newpass1'')))) = None \<and>
   fst (resetPassword example_deps 2000
     ((reset_request ''another2'')
        \<lparr>users := users (snd (resetPassword example_deps 1000 (reset_request ''newpass1'')))\<rparr>))
     = Thrown (BadRequest INVALID_RESET_PASSWORD)"
proof -
  let ?w = "reset_request ''newpass1''"
  let ?w' = "snd (resetPassword example_deps 1000 ?w)"
  let ?w2 = "(reset_request ''another2'')\<lparr>users := users ?w'\<rparr>"
  have "fst (resetPassword example_deps 1000 ?w) = Returned"
    by (simp add: eval_defs example_defs)
  then have ok: "resetPassword example_deps 1000 ?w = (Returned, ?w')"
    by (simp add: prod_eq_iff)
  have uniq: "distinct (map email (users ?w))"
    by (simp add: example_defs)
  have req: "body_email ?w = Some ''a@x.com''" "params_token ?w = Some ''tok1''"
    by (simp_all add: example_defs)
  have again: "users ?w2 = users ?w'" "body_email ?w2 = Some ''a@x.com''"
    "params_token ?w2 = Some ''tok1''" "non_blank_string (body_password ?w2)"
    by (simp_all add: example_defs non_blank_string_def isBlank_def is_space_def)
  from token_single_use [OF uniq req ok again, of 2000] ok show ?thesis
    by simp
qed


section \<open>The first administrator\<close>

lemma forgotPassword_keeps_groups:
  assumes "distinct (map uid (users w))"
  shows "map (\<lambda>v. (uid v, user_group v)) (users (snd (forgotPassword d now tok w)))
           = map (\<lambda>v. (uid v, user_group v)) (users w)"
proof (cases "\<exists>e u. body_email w = Some e \<and> isEmail d e \<and>
    findOne (\<lambda>v. email v = e) (users w) = Some u \<and> reset_limit now u = None")
  case True
  then obtain e u where h: "body_email w = Some e" "isEmail d e"
    "findOne (\<lambda>v. email v = e) (users w) = Some u" "reset_limit now u = None" by blast
  from h(3) have "u \<in> set (users w)" by (auto dest: findOne_Some)
  with assms h show ?thesis
    by (simp add: forgotPassword_def Let_def save_keeps_field [where u = u])
next
  case False
  then show ?thesis
    by (auto simp: forgotPassword_def split: option.splits)
qed

lemma resetPassword_keeps_groups:
  assumes "distinct (map uid (users w))"
  shows "map (\<lambda>v. (uid v, user_group v)) (users (snd (resetPassword d now w)))
           = map (\<lambda>v. (uid v, user_group v)) (users w)"
  using resetPassword_cases [of d now w]
proof (elim disjE exE conjE)
  fix err assume "resetPassword d now w = (Thrown (BadRequest err), w)"
  then show ?thesis by simp
next
  fix e pw t u
  assume f: "findOne (reset_query e t now) (users w) = Some u"
    and c: "resetPassword d now w = consume d u pw w"
  from f have "u \<in> set (users w)" by (auto dest: findOne_Some)
  with assms c show ?thesis
    by (simp add: consume_users save_keeps_field [where u = u])
qed

lemma register_cases:
  "(\<exists>err. register d w = (Thrown err, w)) \<or>
   (\<exists>e pw u. body_email w = Some e \<and> body_password w = Some pw \<and>
      registerAsync d e (if count_users (\<lambda>v. user_group v = ''admin'') (users w) = 0
                         then ''admin'' else ''user'') pw (users w) = Inr (u, users w @ [u]) \<and>
      fst (register d w) = Returned \<and>
      users (snd (register d w)) = users w @ [u] \<and>
      session_user (snd (register d w)) = Some u)"
  by (auto simp: register_def registerAsync_def Let_def split: option.splits sum.splits)

lemma registerAsync_group:
  "registerAsync d e g pw us = Inr (u, us') \<Longrightarrow> user_group u = g \<and> email u = e \<and> uid u = fresh_uid us"
  by (auto simp: registerAsync_def setPassword_def split: if_splits option.splits)

text \<open>
  Claim C3. When \<open>register\<close> returns, exactly one account has been added and logged in,
  and its group is \<open>admin\<close> if no account had the group \<open>admin\<close> when the accounts were
  counted, and \<open>user\<close> otherwise. The group is fixed from then on: ids being unique,
  \<open>forgotPassword\<close> and \<open>resetPassword\<close> leave the group of every account as it is, and
  \<open>register\<close> leaves the accounts that exist untouched.
\<close>

theorem first_admin_role:
  assumes reg: "register d w = (Returned, w')"
    and ids: "distinct (map uid (users wx))"
  shows "(\<exists>u. users w' = users w @ [u] \<and> session_user w' = Some u \<and>
            user_group u = (if count_users (\<lambda>v. user_group v = ''admin'') (users w) = 0
                            then ''admin'' else ''user'')) \<and>
         map (\<lambda>v. (uid v, user_group v)) (users (snd (forgotPassword d now tok wx)))
           = map (\<lambda>v. (uid v, user_group v)) (users wx) \<and>
         map (\<lambda>v. (uid v, user_group v)) (users (snd (resetPassword d now wx)))
           = map (\<lambda>v. (uid v, user_group v)) (users wx) \<and>
         take (length (users wx)) (users (snd (register d wx))) = users wx"
proof -
  from register_cases [of d w] reg
  obtain e pw u where r: "registerAsync d e
      (if count_users (\<lambda>v. user_group v = ''admin'') (users w) = 0 then ''admin'' else ''user'')
      pw (users w) = Inr (u, users w @ [u])"
    and u: "users (snd (register d w)) = users w @ [u]" "session_user (snd (register d w)) = Some u"
    by auto
  from reg have "snd (register d w) = w'" by simp
  with u registerAsync_group [OF r]
  have first: "\<exists>u. users w' = users w @ [u] \<and> session_user w' = Some u \<and>
            user_group u = (if count_users (\<lambda>v. user_group v = ''admin'') (users w) = 0
                            then ''admin'' else ''user'')"
    by auto
  have last: "take (length (users wx)) (users (snd (register d wx))) = users wx"
    using register_cases [of d wx] by auto
  from first last ids show ?thesis
    by (simp add: forgotPassword_keeps_groups resetPassword_keeps_groups)
qed

theorem first_admin_role_witness:
  "fst (register example_deps (blank_world\<lparr>body_email := Some ''a@x.com'', body_password := Some ''pw123''\<rparr>)) = Returned \<and>
   map user_group (users (snd (register example_deps
      (blank_world\<lparr>body_email := Some ''a@x.com'', body_password := Some ''pw123''\<rparr>)))) = [''admin''] \<and>
   map user_group (users (snd (register example_deps
      (blank_world\<lparr>users := [alice], body_email := Some ''b@x.com'', body_password := Some ''pw123''\<rparr>)))) = [''admin'', ''user''] \<and>
   map (\<lambda>v. (uid v, user_group v))
     (users (snd (resetPassword example_deps 1000 (reset_request ''newpass1'')))) = [(1, ''admin'')]"
proof -
  let ?w = "blank_world\<lparr>body_email := Some ''a@x.com'', body_password := Some ''pw123''\<rparr>"
  let ?v = "blank_world\<lparr>users := [alice], body_email := Some ''b@x.com'', body_password := Some ''pw123''\<rparr>"
  have f1: "fst (register example_deps ?w) = Returned"
    by (simp add: eval_defs example_defs register_def registerAsync_def count_users_def)
  have f2: "fst (register example_deps ?v) = Returned"
    by (simp add: eval_defs example_defs register_def registerAsync_def count_users_def)
  have r1: "register example_deps ?w = (Returned, snd (register example_deps ?w))"
    using f1 by (simp add: prod_eq_iff)
  have r2: "register example_deps ?v = (Returned, snd (register example_deps ?v))"
    using f2 by (simp add: prod_eq_iff)
  have ids: "distinct (map uid (users (reset_request ''newpass1'')))"
    by (simp add: example_defs)
  have c1: "count_users (\<lambda>v. user_group v = ''admin'') (users ?w) = 0"
    by (simp add: count_users_def example_defs)
  have c2: "count_users (\<lambda>v. user_group v = ''admin'') (users ?v) \<noteq> 0"
    by (simp add: count_users_def example_defs)
  have g: "map (\<lambda>v. (uid v, user_group v)) (users (reset_request ''newpass1'')) = [(1, ''admin'')]"
    by (simp add: example_defs)
  from first_admin_role [OF r1 ids, of 1000 "''tok2''"] first_admin_role [OF r2 ids, of 1000 "''tok2''"]
    f1 c1 c2 g
  show ?thesis
    by (auto simp: example_defs)
qed


section \<open>Unique ids and emails are kept\<close>

text \<open>
  Every handler keeps the ids and the emails of the collection pairwise distinct, so a
  collection that started empty never holds two accounts with one email.
\<close>

lemma fold_max_upper: "x \<in> set xs \<Longrightarrow> x \<le> fold max xs (m::nat)"
proof (induction xs arbitrary: m)
  case Nil
  then show ?case by simp
next
  case (Cons y ys)
  have mono: "m \<le> fold max zs m" for zs and m :: nat
    by (induction zs arbitrary: m) (auto intro: order_trans [OF max.cobounded2])
  from Cons show ?case
    by (auto intro: order_trans [OF max.cobounded1 mono])
qed

lemma fresh_uid_new: "v \<in> set us \<Longrightarrow> uid v \<noteq> fresh_uid us"
proof -
  assume "v \<in> set us"
  then have "uid v \<le> fold max (map uid us) 0"
    by (intro fold_max_upper) simp
  then show ?thesis by (simp add: fresh_uid_def)
qed

lemma register_keeps_unique:
  assumes "distinct (map uid (users w))" "distinct (map email (users w))"
  shows "distinct (map uid (users (snd (register d w)))) \<and>
         distinct (map email (users (snd (register d w))))"
  using register_cases [of d w]
proof (elim disjE exE conjE)
  fix err assume "register d w = (Thrown err, w)"
  with assms show ?thesis by simp
next
  fix e pw u
  assume r: "registerAsync d e
      (if count_users (\<lambda>v. user_group v = ''admin'') (users w) = 0 then ''admin'' else ''user'')
      pw (users w) = Inr (u, users w @ [u])"
    and us: "users (snd (register d w)) = users w @ [u]"
  from registerAsync_group [OF r] have u: "email u = e" "uid u = fresh_uid (users w)" by auto
  from r have "\<not> list_ex (\<lambda>v. email v = e) (users w)"
    by (auto simp: registerAsync_def split: if_splits)
  then have "e \<notin> email ` set (users w)"
    by (auto simp: list_ex_iff)
  moreover have "fresh_uid (users w) \<notin> uid ` set (users w)"
    using fresh_uid_new by fastforce
  ultimately show ?thesis
    using assms us u by simp
qed

lemma forgotPassword_keeps_unique:
  assumes "distinct (map uid (users w))" "distinct (map email (users w))"
  shows "distinct (map uid (users (snd (forgotPassword d now tok w)))) \<and>
         distinct (map email (users (snd (forgotPassword d now tok w))))"
proof (cases "\<exists>e u. body_email w = Some e \<and> isEmail d e \<and>
    findOne (\<lambda>v. email v = e) (users w) = Some u \<and> reset_limit now u = None")
  case True
  then obtain e u where h: "body_email w = Some e" "isEmail d e"
    "findOne (\<lambda>v. email v = e) (users w) = Some u" "reset_limit now u = None" by blast
  from h(3) have "u \<in> set (users w)" by (auto dest: findOne_Some)
  with assms h show ?thesis
    by (simp add: forgotPassword_def Let_def save_keeps_field [where u = u])
next
  case False
  with assms show ?thesis
    by (auto simp: forgotPassword_def split: option.splits)
qed

lemma resetPassword_keeps_unique:
  assumes "distinct (map uid (users w))" "distinct (map email (users w))"
  shows "distinct (map uid (users (snd (resetPassword d now w)))) \<and>
         distinct (map email (users (snd (resetPassword d now w))))"
  using resetPassword_cases [of d now w]
proof (elim disjE exE conjE)
  fix err assume "resetPassword d now w = (Thrown (BadRequest err), w)"
  with assms show ?thesis by simp
next
  fix e pw t u
  assume f: "findOne (reset_query e t now) (users w) = Some u"
    and c: "resetPassword d now w = consume d u pw w"
  from f have "u \<in> set (users w)" by (auto dest: findOne_Some)
  with assms c show ?thesis
    by (simp add: consume_users save_keeps_field [where u = u])
qed


section \<open>Expiry of a reset token\<close>

text \<open>
  Claim C5, as the spec states it, at the boundary: the token of the example account expires
  at 1800000, and at that very instant the lookup still finds the account and the reset
  goes through.
\<close>

theorem expiry_boundary_counterexample:
  "(1800000::int) \<ge> 1800000 \<and>
   reset_token_expires_at alice = Some 1800000 \<and>
   findOne (reset_query ''a@x.com'' ''tok1'' 1800000) (users (reset_request ''newpass1'')) = Some alice \<and>
   fst (resetPassword example_deps 1800000 (reset_request ''newpass1'')) = Returned"
  by (simp add: eval_defs example_defs)

text \<open>
  Claim C5, amended. The lookup of \<open>resetPassword\<close> finds no account, and the request is
  refused with INVALID_RESET_PASSWORD, whenever every account with the email and the token
  has an expiry strictly before now. For an account with the email and the token, the query
  holds exactly when now is at most the expiry, the boundary instant included.
\<close>

theorem token_expired_strictly:
  assumes req: "body_email w = Some e" "isEmail d e" "non_blank_string (body_password w)"
      "params_token w = Some t" "\<not> isBlank t"
    and expired: "\<forall>u\<in>set (users w). email u = e \<and> reset_token u = Some t \<longrightarrow>
        (case reset_token_expires_at u of None \<Rightarrow> True | Some x \<Rightarrow> x < now)"
  shows "findOne (reset_query e t now) (users w) = None \<and>
         resetPassword d now w = (Thrown (BadRequest INVALID_RESET_PASSWORD), w) \<and>
         (email v = e \<and> reset_token v = Some t \<and> reset_token_expires_at v = Some x \<longrightarrow>
            reset_query e t now v = (now \<le> x))"
proof -
  have "\<not> reset_query e t now u" if "u \<in> set (users w)" for u
    using expired that by (auto simp: reset_query_def split: option.splits)
  then have "findOne (reset_query e t now) (users w) = None"
    by (simp add: findOne_None)
  moreover have "email v = e \<and> reset_token v = Some t \<and> reset_token_expires_at v = Some x \<longrightarrow>
      reset_query e t now v = (now \<le> x)"
    by (simp add: reset_query_def)
  ultimately show ?thesis
    using req by (auto simp: resetPassword_def non_blank_string_def split: option.splits)
qed

theorem token_expired_strictly_witness:
  "findOne (reset_query ''a@x.com'' ''tok1'' 1800001) (users (reset_request ''newpass1'')) = None \<and>
   resetPassword example_deps 1800001 (reset_request ''newpass1'')
     = (Thrown (BadRequest INVALID_RESET_PASSWORD), reset_request ''newpass1'') \<and>
   \<not> reset_query ''a@x.com'' ''tok1'' 1800001 alice"
proof -
  let ?w = "reset_request ''newpass1''"
  have req: "body_email ?w = Some ''a@x.com''" "isEmail example_deps ''a@x.com''"
    "non_blank_string (body_password ?w)" "params_token ?w = Some ''tok1''" "\<not> isBlank ''tok1''"
    by (simp_all add: example_defs non_blank_string_def isBlank_def is_space_def)
  have expired: "\<forall>u\<in>set (users ?w). email u = ''a@x.com'' \<and> reset_token u = Some ''tok1'' \<longrightarrow>
        (case reset_token_expires_at u of None \<Rightarrow> True | Some x \<Rightarrow> x < 1800001)"
    by (simp add: example_defs)
  from token_expired_strictly [OF req expired, of alice 1800000] show ?thesis
    by (simp add: alice_def)
qed


section \<open>Logged in after a reset, whatever the credential store says\<close>

text \<open>
  Claim C8. When the request is well formed and the lookup finds an account, the session
  holds that account afterwards, the same document that was written back, whether the
  credential store took the new password or not. If it refused, the handler throws
  INVALID_PASSWORD_STRENGTH and the logged-in account still has its old password; if it
  accepted, the handler returns and the account has the new hash.
\<close>

theorem always_login_after_reset:
  assumes req: "body_email w = Some e" "isEmail d e" "body_password w = Some pw" "\<not> isBlank pw"
      "params_token w = Some t" "\<not> isBlank t"
    and found: "findOne (reset_query e t now) (users w) = Some u"
  shows "session_user (snd (resetPassword d now w)) = Some (consumed d u pw) \<and>
         findOne (\<lambda>v. uid v = uid u) (users (snd (resetPassword d now w))) = Some (consumed d u pw) \<and>
         uid (consumed d u pw) = uid u \<and> email (consumed d u pw) = e \<and>
         (hash_password d pw = None \<longrightarrow>
            fst (resetPassword d now w) = Thrown (BadRequest INVALID_PASSWORD_STRENGTH) \<and>
            password (consumed d u pw) = password u) \<and>
         (hash_password d pw \<noteq> None \<longrightarrow>
            fst (resetPassword d now w) = Returned \<and>
            Some (password (consumed d u pw)) = hash_password d pw)"
proof -
  have r: "resetPassword d now w = consume d u pw w"
    using req found by (rule resetPassword_found)
  from found have u: "u \<in> set (users w)" "email u = e"
    by (auto dest: findOne_Some simp: reset_query_def)
  have "findOne (\<lambda>v. uid v = uid u) (save (consumed d u pw) (users w)) = Some (consumed d u pw)"
    using u by (simp add: findOne_save_uid)
  moreover have "hash_password d pw = None \<Longrightarrow> password (consumed d u pw) = password u"
    by (simp add: consumed_def)
  moreover have "hash_password d pw \<noteq> None \<Longrightarrow>
      Some (password (consumed d u pw)) = hash_password d pw"
    by (auto simp: consumed_def)
  ultimately show ?thesis
    using r u by (auto simp: consume_users consume_session consume_outcome)
qed

theorem always_login_after_reset_witness:
  "session_user (snd (resetPassword example_deps 1000 (reset_request ''abc'')))
     = Some (alice\<lparr>reset_token := None\<rparr>) \<and>
   fst (resetPassword example_deps 1000 (reset_request ''abc''))
     = Thrown (BadRequest INVALID_PASSWORD_STRENGTH) \<and>
   session_user (snd (resetPassword example_deps 1000 (reset_request ''newpass1'')))
     = Some (alice\<lparr>reset_token := None, password := ''hash:newpass1''\<rparr>) \<and>
   fst (resetPassword example_deps 1000 (reset_request ''newpass1'')) = Returned"
proof -
  have req: "body_email (reset_request pw) = Some ''a@x.com''" "isEmail example_deps ''a@x.com''"
    "body_password (reset_request pw) = Some pw"
    "params_token (reset_request pw) = Some ''tok1''" "\<not> isBlank ''tok1''" for pw
    by (simp_all add: example_defs isBlank_def is_space_def)
  have nb: "\<not> isBlank ''abc''" "\<not> isBlank ''newpass1''"
    by (simp_all add: isBlank_def is_space_def)
  have found: "findOne (reset_query ''a@x.com'' ''tok1'' 1000) (users (reset_request pw)) = Some alice" for pw
    by (simp add: eval_defs example_defs)
  have h: "hash_password example_deps ''abc'' = None"
    "hash_password example_deps ''newpass1'' = Some ''hash:newpass1''"
    by (simp_all add: example_defs)
  from always_login_after_reset [OF req(1,2,3) nb(1) req(4,5) found]
       always_login_after_reset [OF req(1,2,3) nb(2) req(4,5) found] h
  show ?thesis
    by (simp add: consumed_def alice_def)
qed

text \<open>
  Claim C9. When the request is well formed, the lookup finds an account and the credential
  store refuses the password, the handler throws the client error INVALID_PASSWORD_STRENGTH,
  the stored account is the found one with its reset token cleared, and that account
  matches no reset query, whatever the email, token and time.
\<close>

theorem token_clearing_survives_failure:
  assumes req: "body_email w = Some e" "isEmail d e" "body_password w = Some pw" "\<not> isBlank pw"
      "params_token w = Some t" "\<not> isBlank t"
    and found: "findOne (reset_query e t now) (users w) = Some u"
    and weak: "hash_password d pw = None"
  shows "fst (resetPassword d now w) = Thrown (BadRequest INVALID_PASSWORD_STRENGTH) \<and>
         findOne (\<lambda>v. uid v = uid u) (users (snd (resetPassword d now w)))
           = Some (u\<lparr>reset_token := None, reset_at := None\<rparr>) \<and>
         \<not> reset_query e' t' now' (u\<lparr>reset_token := None, reset_at := None\<rparr>)"
proof -
  have r: "resetPassword d now w = consume d u pw w"
    using req found by (rule resetPassword_found)
  from found have u: "u \<in> set (users w)"
    by (auto dest: findOne_Some)
  have c: "consumed d u pw = u\<lparr>reset_token := None, reset_at := None\<rparr>"
    using weak by (simp add: consumed_def)
  have "findOne (\<lambda>v. uid v = uid u) (save (consumed d u pw) (users w)) = Some (consumed d u pw)"
    using u by (simp add: findOne_save_uid)
  with r c weak show ?thesis
    by (simp add: consume_users consume_outcome reset_query_def)
qed

theorem token_clearing_survives_failure_witness:
  "fst (resetPassword example_deps 1000 (reset_request ''abc''))
     = Thrown (BadRequest INVALID_PASSWORD_STRENGTH) \<and>
   findOne (\<lambda>v. uid v = 1) (users (snd (resetPassword example_deps 1000 (reset_request ''abc''))))
     = Some (alice\<lparr>reset_token := None\<rparr>) \<and>
   \<not> reset_query ''a@x.com'' ''tok1'' 1000 (alice\<lparr>reset_token := None\<rparr>)"
proof -
  let ?w = "reset_request ''abc''"
  have req: "body_email ?w = Some ''a@x.com''" "isEmail example_deps ''a@x.com''"
    "body_password ?w = Some ''abc''" "\<not> isBlank ''abc''"
    "params_token ?w = Some ''tok1''" "\<not> isBlank ''tok1''"
    by (simp_all add: example_defs isBlank_def is_space_def)
  have found: "findOne (reset_query ''a@x.com'' ''tok1'' 1000) (users ?w) = Some alice"
    by (simp add: eval_defs example_defs)
  have weak: "hash_password example_deps ''abc'' = None"
    by (simp add: example_defs)
  from token_clearing_survives_failure [OF req found weak, of "''a@x.com''" "''tok1''" 1000]
  show ?thesis
    by (simp add: alice_def)
qed


section \<open>The limit on reset requests\<close>

lemma reset_limit_Some:
  "reset_limit now u = Some wait \<Longrightarrow>
     \<exists>tk x. reset_token u = Some tk \<and> tk \<noteq> [] \<and> reset_token_expires_at u = Some x \<and>
            x < now + thirty_minutes \<and> wait = x - now"
  by (auto simp: reset_limit_def truthy_def split: option.splits if_splits)

lemma reset_limit_after_issue:
  assumes "reset_token u = Some tk" "tk \<noteq> []"
    "reset_token_expires_at u = Some (issued + thirty_minutes)" "issued < now"
  shows "reset_limit now u = Some (issued + thirty_minutes - now)"
  using assms by (simp add: reset_limit_def truthy_def)

lemma forgotPassword_limited:
  assumes "fst (forgotPassword d now tok w) = Thrown (BadRequest (PASSWORD_RESET_LIMIT wait))"
  shows "\<exists>e u. body_email w = Some e \<and> isEmail d e \<and>
           findOne (\<lambda>v. email v = e) (users w) = Some u \<and> reset_limit now u = Some wait"
  using assms by (auto simp: forgotPassword_def Let_def split: option.splits if_splits)

lemma forgotPassword_unknown_email:
  assumes "body_email w = Some e" "isEmail d e" "findOne (\<lambda>v. email v = e) (users w) = None"
  shows "forgotPassword d now tok w = (Returned, reply_reset_sent w)"
  using assms by (simp add: forgotPassword_def)

lemma forgotPassword_issued_reply:
  assumes "body_email w = Some e" "isEmail d e" "findOne (\<lambda>v. email v = e) (users w) = Some u"
    "reset_limit now u = None"
  shows "fst (forgotPassword d now tok w) = Returned \<and>
         resp_body (snd (forgotPassword d now tok w)) = resp_body (reply_reset_sent w) \<and>
         resp_flash (snd (forgotPassword d now tok w)) = resp_flash (reply_reset_sent w) \<and>
         resp_redirect (snd (forgotPassword d now tok w)) = resp_redirect (reply_reset_sent w)"
  using assms by (simp add: forgotPassword_def Let_def reply_reset_sent_def Jobs_create_def)

text \<open>
  Claim C10. \<open>forgotPassword\<close> throws PASSWORD_RESET_LIMIT only for an account on which both
  the reset token (a non-empty string) and its expiry are set. For an account whose reset
  token is null it returns, whatever the expiry is, and the stored account carries the
  fresh token and an expiry thirty minutes from now.
\<close>

theorem rate_limit_needs_token:
  assumes req: "body_email w = Some e"
  shows "(fst (forgotPassword d now tok w) = Thrown (BadRequest (PASSWORD_RESET_LIMIT wait)) \<longrightarrow>
            (\<exists>u tk x. findOne (\<lambda>v. email v = e) (users w) = Some u \<and>
               reset_token u = Some tk \<and> tk \<noteq> [] \<and> reset_token_expires_at u = Some x)) \<and>
         (isEmail d e \<and> findOne (\<lambda>v. email v = e) (users w) = Some u \<and> reset_token u = None \<longrightarrow>
            fst (forgotPassword d now tok w) = Returned \<and>
            findOne (\<lambda>v. uid v = uid u) (users (snd (forgotPassword d now tok w)))
              = Some (u\<lparr>reset_token_expires_at := Some (now + thirty_minutes),
                        reset_token := Some tok\<rparr>))"
proof (intro conjI impI)
  assume "fst (forgotPassword d now tok w) = Thrown (BadRequest (PASSWORD_RESET_LIMIT wait))"
  from forgotPassword_limited [OF this] req
  obtain u' where "findOne (\<lambda>v. email v = e) (users w) = Some u'" "reset_limit now u' = Some wait"
    by auto
  with reset_limit_Some [of now u' wait]
  show "\<exists>u tk x. findOne (\<lambda>v. email v = e) (users w) = Some u \<and>
               reset_token u = Some tk \<and> tk \<noteq> [] \<and> reset_token_expires_at u = Some x"
    by auto
next
  assume a: "isEmail d e \<and> findOne (\<lambda>v. email v = e) (users w) = Some u \<and> reset_token u = None"
  then have l: "reset_limit now u = None"
    by (simp add: reset_limit_def truthy_def split: option.splits)
  with a req show "fst (forgotPassword d now tok w) = Returned"
    by (simp add: forgotPassword_def Let_def)
next
  assume a: "isEmail d e \<and> findOne (\<lambda>v. email v = e) (users w) = Some u \<and> reset_token u = None"
  then have l: "reset_limit now u = None"
    by (simp add: reset_limit_def truthy_def split: option.splits)
  from a have u: "u \<in> set (users w)" by (auto dest: findOne_Some)
  from a l req u show "findOne (\<lambda>v. uid v = uid u) (users (snd (forgotPassword d now tok w)))
              = Some (u\<lparr>reset_token_expires_at := Some (now + thirty_minutes),
                        reset_token := Some tok\<rparr>)"
    by (simp add: forgotPassword_def Let_def findOne_save_uid)
qed

theorem rate_limit_needs_token_witness:
  "fst (forgotPassword example_deps 60000 ''tok2'' (forgot_request ''a@x.com''))
     = Thrown (BadRequest (PASSWORD_RESET_LIMIT 1740000)) \<and>
   (\<exists>u tk x. findOne (\<lambda>v. email v = ''a@x.com'') (users (forgot_request ''a@x.com'')) = Some u \<and>
       reset_token u = Some tk \<and> tk \<noteq> [] \<and> reset_token_expires_at u = Some x) \<and>
   fst (forgotPassword example_deps 60000 ''tok2''
          ((forgot_request ''a@x.com'')\<lparr>users := [alice\<lparr>reset_token := None\<rparr>]\<rparr>)) = Returned \<and>
   findOne (\<lambda>v. uid v = 1) (users (snd (forgotPassword example_deps 60000 ''tok2''
          ((forgot_request ''a@x.com'')\<lparr>users := [alice\<lparr>reset_token := None\<rparr>]\<rparr>))))
     = Some (alice\<lparr>reset_token_expires_at := Some 1860000, reset_token := Some ''tok2''\<rparr>)"
proof -
  let ?w = "forgot_request ''a@x.com''"
  let ?v = "?w\<lparr>users := [alice\<lparr>reset_token := None\<rparr>]\<rparr>"
  have lim: "fst (forgotPassword example_deps 60000 ''tok2'' ?w)
      = Thrown (BadRequest (PASSWORD_RESET_LIMIT 1740000))"
    by (simp add: eval_defs example_defs)
  have req: "body_email ?w = Some ''a@x.com''" "body_email ?v = Some ''a@x.com''"
    by (simp_all add: example_defs)
  have a: "isEmail example_deps ''a@x.com'' \<and>
      findOne (\<lambda>v. email v = ''a@x.com'') (users ?v) = Some (alice\<lparr>reset_token := None\<rparr>) \<and>
      reset_token (alice\<lparr>reset_token := None\<rparr>) = None"
    by (simp add: eval_defs example_defs)
  from rate_limit_needs_token [OF req(1), where d = example_deps and now = 60000
        and tok = "''tok2''" and wait = 1740000] lim
    rate_limit_needs_token [OF req(2), where d = example_deps and now = 60000
        and tok = "''tok2''" and u = "alice\<lparr>reset_token := None\<rparr>"] a
  show ?thesis
    by (simp add: alice_def thirty_minutes_def)
qed

text \<open>
  Claim C4 at a concrete request. The token of the example account was issued at time 0 and
  expired at 1800000. A request at 1860000, thirty-one minutes after the issuance, is still
  refused with PASSWORD_RESET_LIMIT, and the distance to the expiry that the message is
  formatted with is negative: by \<open>reset_limit_after_issue\<close> the test of lines 234 to 238
  holds at every instant after the issuance, not only during the following half hour.
\<close>

theorem cooldown_elapsed_still_limited:
  "forgotPassword example_deps 1860000 ''tok2'' (forgot_request ''a@x.com'')
     = (Thrown (BadRequest (PASSWORD_RESET_LIMIT (- 60000))), forgot_request ''a@x.com'')"
  by (simp add: eval_defs example_defs)

text \<open>
  Claim C7 at a concrete request, two and a half hours after the token of the example
  account was issued. For an unknown email the handler returns with PASSWORD_RESET_SENT and
  enqueues nothing; for the email of the account, whose cooldown has long elapsed, it throws
  PASSWORD_RESET_LIMIT, so the two responses differ.
\<close>

theorem lapsed_token_reveals_account:
  "forgotPassword example_deps 9000000 ''tok2'' (forgot_request ''ghost@x.com'')
     = (Returned, (forgot_request ''ghost@x.com'')\<lparr>resp_body := Some (Body_message PASSWORD_RESET_SENT)\<rparr>) \<and>
   forgotPassword example_deps 9000000 ''tok2'' (forgot_request ''a@x.com'')
     = (Thrown (BadRequest (PASSWORD_RESET_LIMIT (- 7200000))), forgot_request ''a@x.com'')"
  by (simp add: eval_defs example_defs)


section \<open>The two token fields\<close>

text \<open>
  Claim C6 at a concrete request. After a reset that returns, the stored account has its
  reset token cleared while \<open>reset_token_expires_at\<close> still holds the old expiry: the
  handler clears \<open>reset_at\<close> instead.
\<close>

theorem reset_leaves_expiry_set:
  "fst (resetPassword example_deps 1000 (reset_request ''newpass1'')) = Returned \<and>
   users (snd (resetPassword example_deps 1000 (reset_request ''newpass1'')))
     = [alice\<lparr>password := ''hash:newpass1'', reset_token := None,
              reset_token_expires_at := Some 1800000\<rparr>]"
  by (simp add: eval_defs example_defs)

end
